theory Spec2Isabelle
  imports Main "HOL-Library.Log_Nat"
begin

section \<open>Python numbers\<close>

text \<open>
  The module handles quantities typed \<^verbatim>\<open>Union[int, float]\<close> and tests them with
  \<^verbatim>\<open>isinstance(v, (int, float))\<close>. An \<^verbatim>\<open>int\<close> is unbounded. Python's \<^verbatim>\<open>bool\<close> is a
  subclass of \<^verbatim>\<open>int\<close>, so \<^verbatim>\<open>True\<close> and \<^verbatim>\<open>False\<close> pass that test and count as 1 and 0
  in \<^verbatim>\<open>+\<close>, \<^verbatim>\<open>-\<close>, \<^verbatim>\<open><\<close> and \<^verbatim>\<open><=\<close>.

  A \<^verbatim>\<open>float\<close> is an IEEE 754 double: not-a-number, an infinity, or a finite value.
  Every finite double is a whole multiple of the least positive one, \<open>2\<^sup>-\<^sup>1\<^sup>0\<^sup>7\<^sup>4\<close>, and
  \<open>Finite k\<close> stands for \<open>k\<close> times that unit: 1.0 is \<open>Finite (2 ^ 1074)\<close> and an int
  \<open>i\<close> is worth \<open>i * 2 ^ 1074\<close> units. The two zeros, which Python holds equal and which
  behave alike in every operation of the module, are both \<open>Finite 0\<close>.
\<close>

datatype pyfloat = NaN | PosInf | NegInf | Finite int

text \<open>1.0 in units, and the least magnitude beyond every double, \<open>2\<^sup>1\<^sup>0\<^sup>2\<^sup>4\<close>, in units.\<close>

definition fl_one :: int where
  "fl_one = 2 ^ 1074"

definition fl_top :: int where
  "fl_top = 2 ^ 2098"

text \<open>
  Rounding an exact result, in units, to the nearest double, ties to the even
  significand: a double has 53 significant bits, so a magnitude of more than 53 bits
  loses its low \<open>s\<close> bits, and a result of \<open>2\<^sup>1\<^sup>0\<^sup>2\<^sup>4\<close> (\<open>2 ^ 2098\<close> units) or more is an
  infinity. \<^const>\<open>bitlen\<close> is the number of bits of a positive integer.
\<close>

definition round_mag :: "int \<Rightarrow> int" where
  "round_mag a =
     (let s = nat (bitlen a - 53) in
      if s = 0 then a
      else
        let q = a div 2 ^ s; r = a mod 2 ^ s; h = 2 ^ (s - 1);
            m = (if r < h then q else if h < r then q + 1 else if even q then q else q + 1)
        in m * 2 ^ s)"

definition fl_round :: "int \<Rightarrow> pyfloat" where
  "fl_round k =
     (let x = round_mag \<bar>k\<bar> in
      if fl_top \<le> x then (if k < 0 then NegInf else PosInf)
      else Finite (if k < 0 then - x else x))"

fun fl_neg :: "pyfloat \<Rightarrow> pyfloat" where
  "fl_neg NaN = NaN"
| "fl_neg PosInf = NegInf"
| "fl_neg NegInf = PosInf"
| "fl_neg (Finite k) = Finite (- k)"

fun fl_add :: "pyfloat \<Rightarrow> pyfloat \<Rightarrow> pyfloat" where
  "fl_add NaN y = NaN"
| "fl_add x NaN = NaN"
| "fl_add PosInf NegInf = NaN"
| "fl_add NegInf PosInf = NaN"
| "fl_add PosInf y = PosInf"
| "fl_add x PosInf = PosInf"
| "fl_add NegInf y = NegInf"
| "fl_add x NegInf = NegInf"
| "fl_add (Finite a) (Finite b) = fl_round (a + b)"

definition fl_sub :: "pyfloat \<Rightarrow> pyfloat \<Rightarrow> pyfloat" where
  "fl_sub x y = fl_add x (fl_neg y)"

text \<open>Comparison: every comparison with not-a-number is false.\<close>

fun fl_less :: "pyfloat \<Rightarrow> pyfloat \<Rightarrow> bool" where
  "fl_less NaN y = False"
| "fl_less x NaN = False"
| "fl_less x NegInf = False"
| "fl_less NegInf y = True"
| "fl_less PosInf y = False"
| "fl_less x PosInf = True"
| "fl_less (Finite a) (Finite b) = (a < b)"

fun fl_le :: "pyfloat \<Rightarrow> pyfloat \<Rightarrow> bool" where
  "fl_le NaN y = False"
| "fl_le x NaN = False"
| "fl_le NegInf y = True"
| "fl_le x NegInf = False"
| "fl_le x PosInf = True"
| "fl_le PosInf y = False"
| "fl_le (Finite a) (Finite b) = (a \<le> b)"

datatype number = PInt int | PBool bool | PFloat pyfloat

text \<open>The value of an \<^verbatim>\<open>int\<close> or a \<^verbatim>\<open>bool\<close>.\<close>

fun int_of :: "number \<Rightarrow> int option" where
  "int_of (PInt i) = Some i"
| "int_of (PBool b) = Some (if b then 1 else 0)"
| "int_of (PFloat x) = None"

text \<open>
  Where a number lies, in units and not rounded: Python compares an \<^verbatim>\<open>int\<close> with a
  \<^verbatim>\<open>float\<close> by their exact values, and never raises.
\<close>

fun exact :: "number \<Rightarrow> pyfloat" where
  "exact (PInt i) = Finite (i * fl_one)"
| "exact (PBool b) = Finite (if b then fl_one else 0)"
| "exact (PFloat x) = x"

definition num_lt :: "number \<Rightarrow> number \<Rightarrow> bool" where
  "num_lt a b = fl_less (exact a) (exact b)"

definition num_le :: "number \<Rightarrow> number \<Rightarrow> bool" where
  "num_le a b = fl_le (exact a) (exact b)"

text \<open>
  The conversion of an operand to \<^verbatim>\<open>float\<close> in mixed arithmetic: an \<^verbatim>\<open>int\<close> is rounded
  to the nearest double, and one that rounds beyond the largest double raises
  \<^verbatim>\<open>OverflowError\<close> (\<open>None\<close>).
\<close>

definition int_to_float :: "int \<Rightarrow> pyfloat option" where
  "int_to_float i =
     (case fl_round (i * fl_one) of
        PosInf \<Rightarrow> None
      | NegInf \<Rightarrow> None
      | x \<Rightarrow> Some x)"

fun float_of :: "number \<Rightarrow> pyfloat option" where
  "float_of (PInt i) = int_to_float i"
| "float_of (PBool b) = int_to_float (if b then 1 else 0)"
| "float_of (PFloat x) = Some x"

text \<open>
  \<^verbatim>\<open>a + b\<close> and \<^verbatim>\<open>a - b\<close>: exact on two integers (booleans included), and in floating
  point as soon as one operand is a \<^verbatim>\<open>float\<close>; \<open>None\<close> is \<^verbatim>\<open>OverflowError\<close>. Two floats
  never raise: a sum beyond the largest double is an infinity.
\<close>

definition py_add :: "number \<Rightarrow> number \<Rightarrow> number option" where
  "py_add a b =
     (case (int_of a, int_of b) of
        (Some i, Some j) \<Rightarrow> Some (PInt (i + j))
      | _ \<Rightarrow>
         (case (float_of a, float_of b) of
            (Some x, Some y) \<Rightarrow> Some (PFloat (fl_add x y))
          | _ \<Rightarrow> None))"

definition py_sub :: "number \<Rightarrow> number \<Rightarrow> number option" where
  "py_sub a b =
     (case (int_of a, int_of b) of
        (Some i, Some j) \<Rightarrow> Some (PInt (i - j))
      | _ \<Rightarrow>
         (case (float_of a, float_of b) of
            (Some x, Some y) \<Rightarrow> Some (PFloat (fl_sub x y))
          | _ \<Rightarrow> None))"

section \<open>Python values\<close>

text \<open>
  The values an argument, or a value parsed by \<^verbatim>\<open>json.load\<close>, can be. A dictionary is
  the list of its items in iteration order.
\<close>

datatype pyval =
    PNone
  | PNum number
  | PStr string
  | PList "pyval list"
  | PDict "(pyval \<times> pyval) list"

datatype pyerr = TypeError | ValueError | KeyError | OverflowError

text \<open>\<^verbatim>\<open>isinstance(v, (int, float))\<close>, giving the number when the test passes.\<close>

fun as_number :: "pyval \<Rightarrow> number option" where
  "as_number (PNum n) = Some n"
| "as_number _ = None"

text \<open>\<^verbatim>\<open>isinstance(item, str) and item\<close>: a string that is not empty.\<close>

fun as_name :: "pyval \<Rightarrow> string option" where
  "as_name (PStr s) = (if s = [] then None else Some s)"
| "as_name _ = None"

section \<open>The inventory dictionary\<close>

text \<open>
  \<^verbatim>\<open>stock_data\<close> is a \<^verbatim>\<open>dict\<close>, which iterates in insertion order: assigning to a key
  that is present keeps its place, assigning to a new key appends it, and \<^verbatim>\<open>del\<close>
  removes it. It is modelled by the list of its items; a dictionary has each key once
  (\<open>dict_ok\<close>). Lookup is \<^const>\<open>map_of\<close>.
\<close>

type_synonym inventory = "(string \<times> number) list"

fun dict_set :: "inventory \<Rightarrow> string \<Rightarrow> number \<Rightarrow> inventory" where
  "dict_set [] k v = [(k, v)]"
| "dict_set ((k', v') # rest) k v =
     (if k' = k then (k, v) # rest else (k', v') # dict_set rest k v)"

definition dict_del :: "inventory \<Rightarrow> string \<Rightarrow> inventory" where
  "dict_del d k = filter (\<lambda>(k', v'). k' \<noteq> k) d"

definition dict_keys :: "inventory \<Rightarrow> string list" where
  "dict_keys d = map fst d"

definition dict_ok :: "inventory \<Rightarrow> bool" where
  "dict_ok d = distinct (dict_keys d)"

section \<open>The operations\<close>

text \<open>
  Each operation takes the inventory and returns what the call gives back, \<open>Inl\<close> the
  exception raised or \<open>Inr\<close> the value returned, together with the inventory after
  the call: an exception does not undo an assignment made before it. The log sink (the
  \<^verbatim>\<open>logging\<close> module and the optional \<^verbatim>\<open>logs\<close> list of \<^verbatim>\<open>add_item\<close>) only receives
  text and is never read back; it is not part of the state.

  \<^verbatim>\<open>add_item\<close> builds its log entry with \<^verbatim>\<open>f"{timestamp}: Added {qty} of {item}"\<close>
  after the assignment. Formatting an \<^verbatim>\<open>int\<close> of more decimal digits than the
  interpreter allows (\<^verbatim>\<open>sys.get_int_max_str_digits()\<close>, 4300 unless it is set, 0 for no
  limit) raises \<^verbatim>\<open>ValueError\<close>; a \<^verbatim>\<open>bool\<close> or a \<^verbatim>\<open>float\<close> always formats. That setting is
  the parameter \<open>limit\<close>.
\<close>

definition entry_fails :: "nat \<Rightarrow> number \<Rightarrow> bool" where
  "entry_fails limit qty =
     (case qty of PInt i \<Rightarrow> 0 < limit \<and> 10 ^ limit \<le> \<bar>i\<bar> | _ \<Rightarrow> False)"

definition add_item :: "nat \<Rightarrow> pyval \<Rightarrow> pyval \<Rightarrow> inventory \<Rightarrow> (pyerr + unit) \<times> inventory" where
  "add_item limit item qty stock_data =
     (case as_name item of
        None \<Rightarrow> (Inl TypeError, stock_data)
      | Some name \<Rightarrow>
          (case as_number qty of
             None \<Rightarrow> (Inl TypeError, stock_data)
           | Some q \<Rightarrow>
               if num_lt q (PInt 0) then (Inl ValueError, stock_data)
               else
                 let current = (case map_of stock_data name of None \<Rightarrow> PInt 0 | Some c \<Rightarrow> c)
                 in (case py_add current q of
                       None \<Rightarrow> (Inl OverflowError, stock_data)
                     | Some stored \<Rightarrow>
                         let stock_data' = dict_set stock_data name stored
                         in if entry_fails limit q then (Inl ValueError, stock_data')
                            else (Inr (), stock_data'))))"

text \<open>
  In \<^verbatim>\<open>remove_item\<close> the message of the \<^verbatim>\<open>ValueError\<close> for a \<^verbatim>\<open>qty\<close> above the stock is
  an f-string over \<^verbatim>\<open>qty\<close> too: when formatting fails, what is raised is a
  \<^verbatim>\<open>ValueError\<close> all the same.
\<close>

definition remove_item :: "pyval \<Rightarrow> pyval \<Rightarrow> inventory \<Rightarrow> (pyerr + unit) \<times> inventory" where
  "remove_item item qty stock_data =
     (case as_name item of
        None \<Rightarrow> (Inl TypeError, stock_data)
      | Some name \<Rightarrow>
          (case as_number qty of
             None \<Rightarrow> (Inl TypeError, stock_data)
           | Some q \<Rightarrow>
               if num_le q (PInt 0) then (Inl ValueError, stock_data)
               else
                 (case map_of stock_data name of
                    None \<Rightarrow> (Inl KeyError, stock_data)
                  | Some c \<Rightarrow>
                      if num_lt c q then (Inl ValueError, stock_data)
                      else
                        (case py_sub c q of
                           None \<Rightarrow> (Inl OverflowError, stock_data)
                         | Some left \<Rightarrow>
                             let stock_data' = dict_set stock_data name left
                             in if num_le left (PInt 0) then (Inr (), dict_del stock_data' name)
                                else (Inr (), stock_data')))))"

definition get_qty :: "pyval \<Rightarrow> inventory \<Rightarrow> (pyerr + number) \<times> inventory" where
  "get_qty item stock_data =
     (case as_name item of
        None \<Rightarrow> (Inl TypeError, stock_data)
      | Some name \<Rightarrow>
          (Inr (case map_of stock_data name of None \<Rightarrow> PInt 0 | Some c \<Rightarrow> c), stock_data))"

definition check_low_items :: "pyval \<Rightarrow> inventory \<Rightarrow> (pyerr + string list) \<times> inventory" where
  "check_low_items threshold stock_data =
     (case as_number threshold of
        None \<Rightarrow> (Inl TypeError, stock_data)
      | Some t \<Rightarrow>
          (Inr [name. (name, qty) \<leftarrow> stock_data, num_lt qty t], stock_data))"

section \<open>Files\<close>

text \<open>
  A file holds text; \<^verbatim>\<open>json.load\<close> either raises \<^verbatim>\<open>JSONDecodeError\<close> on it or returns
  a value. The text is represented by that outcome, and the text \<^verbatim>\<open>json.dump\<close> writes
  for a dictionary by the dictionary: the \<^verbatim>\<open>json\<close> library itself is not modelled. A
  path with no file makes \<^verbatim>\<open>open(file, "r")\<close> raise \<^verbatim>\<open>FileNotFoundError\<close>; a path that
  is not \<open>writable\<close> makes \<^verbatim>\<open>open(file, "w")\<close> raise \<^verbatim>\<open>OSError\<close>. Files that exist and
  cannot be read are not represented. A call that leaves out \<^verbatim>\<open>file\<close> or \<^verbatim>\<open>threshold\<close>
  is the call with the default, \<^verbatim>\<open>"inventory.json"\<close> or 5.
\<close>

datatype file_text = Not_json | Json pyval

record filesystem =
  content :: "string \<Rightarrow> file_text option"
  writable :: "string \<Rightarrow> bool"

text \<open>
  The key of an item of the loaded dictionary: \<^verbatim>\<open>if not isinstance(k, str): k = str(k)\<close>.
  Python's built-in \<^verbatim>\<open>str\<close> is the parameter \<open>py_str\<close>.
\<close>

fun key_text :: "(pyval \<Rightarrow> string) \<Rightarrow> pyval \<Rightarrow> string" where
  "key_text py_str (PStr s) = s"
| "key_text py_str k = py_str k"

text \<open>
  The loop of \<^verbatim>\<open>load_data\<close> over \<^verbatim>\<open>data.items()\<close>: a value that is not a number raises
  \<^verbatim>\<open>TypeError\<close> inside the loop body, which is caught there, and the loop goes on.
\<close>

fun load_items :: "(pyval \<Rightarrow> string) \<Rightarrow> (pyval \<times> pyval) list \<Rightarrow> inventory \<Rightarrow> inventory" where
  "load_items py_str [] stock_data = stock_data"
| "load_items py_str ((k, v) # rest) stock_data =
     (case as_number v of
        None \<Rightarrow> load_items py_str rest stock_data
      | Some n \<Rightarrow> load_items py_str rest (dict_set stock_data (key_text py_str k) n))"

definition load_data :: "(pyval \<Rightarrow> string) \<Rightarrow> filesystem \<Rightarrow> string \<Rightarrow> inventory \<Rightarrow> inventory" where
  "load_data py_str fs file stock_data =
     (case content fs file of
        None \<Rightarrow> stock_data
      | Some Not_json \<Rightarrow> stock_data
      | Some (Json data) \<Rightarrow>
          (case data of
             PDict items \<Rightarrow> load_items py_str items []
           | _ \<Rightarrow> stock_data))"



section \<open>Sequences of calls\<close>

text \<open>
  A caller that catches what a call raises and goes on, as \<^verbatim>\<open>main\<close> does: the
  inventory after each call is the one the next call starts from.
\<close>

datatype call = Add pyval pyval | Remove pyval pyval | Load string

record interpreter =
  int_max_str_digits :: nat
  str_of :: "pyval \<Rightarrow> string"
  files :: filesystem

fun run_call :: "interpreter \<Rightarrow> call \<Rightarrow> inventory \<Rightarrow> inventory" where
  "run_call py (Add item qty) stock_data =
     snd (add_item (int_max_str_digits py) item qty stock_data)"
| "run_call py (Remove item qty) stock_data = snd (remove_item item qty stock_data)"
| "run_call py (Load file) stock_data = load_data (str_of py) (files py) file stock_data"

fun run_calls :: "interpreter \<Rightarrow> call list \<Rightarrow> inventory \<Rightarrow> inventory" where
  "run_calls py [] stock_data = stock_data"
| "run_calls py (c # cs) stock_data = run_calls py cs (run_call py c stock_data)"

section \<open>Notions the statements use\<close>

text \<open>Every entry of the inventory has a quantity above zero.\<close>

definition all_positive :: "inventory \<Rightarrow> bool" where
  "all_positive d = list_all (\<lambda>(k, v). num_lt (PInt 0) v) d"

text \<open>
  The calls that can bring in a quantity that is not above zero, given the inventory
  they start from: an \<^verbatim>\<open>add_item\<close> of not-a-number, or of a zero of an item that is
  absent; a \<^verbatim>\<open>remove_item\<close> from an item that is present of not-a-number, or of an
  infinity from a stock of infinity; a \<^verbatim>\<open>load_data\<close> of a JSON object that holds a
  number not above zero. \<open>call_ok\<close> holds of every other call.
\<close>

fun call_ok :: "interpreter \<Rightarrow> inventory \<Rightarrow> call \<Rightarrow> bool" where
  "call_ok py stock_data (Add item qty) =
     (case (as_name item, as_number qty) of
        (Some name, Some q) \<Rightarrow>
          q \<noteq> PFloat NaN \<and>
          \<not> (num_le q (PInt 0) \<and> num_le (PInt 0) q \<and> map_of stock_data name = None)
      | _ \<Rightarrow> True)"
| "call_ok py stock_data (Remove item qty) =
     (case (as_name item, as_number qty) of
        (Some name, Some q) \<Rightarrow>
          (case map_of stock_data name of
             None \<Rightarrow> True
           | Some s \<Rightarrow> q \<noteq> PFloat NaN \<and> \<not> (q = PFloat PosInf \<and> s = PFloat PosInf))
      | _ \<Rightarrow> True)"
| "call_ok py stock_data (Load file) =
     (case content (files py) file of
        Some (Json (PDict items)) \<Rightarrow>
          list_all (\<lambda>(k, v). case as_number v of None \<Rightarrow> True | Some n \<Rightarrow> num_lt (PInt 0) n) items
      | _ \<Rightarrow> True)"

fun calls_ok :: "interpreter \<Rightarrow> inventory \<Rightarrow> call list \<Rightarrow> bool" where
  "calls_ok py stock_data [] = True"
| "calls_ok py stock_data (c # cs) =
     (call_ok py stock_data c \<and> calls_ok py (run_call py c stock_data) cs)"

text \<open>
  A float that is a double: rounding leaves it as it is. Every float Python holds is
  one.
\<close>

fun is_double :: "number \<Rightarrow> bool" where
  "is_double (PFloat (Finite k)) = (fl_round k = Finite k)"
| "is_double n = True"

text \<open>
  What the specification says a load keeps of a JSON object: the items whose value is
  numeric, in the order of the document, each under its key as text; the others are
  skipped.
\<close>

fun numeric_entries :: "(pyval \<Rightarrow> string) \<Rightarrow> (pyval \<times> pyval) list \<Rightarrow> inventory" where
  "numeric_entries py_str [] = []"
| "numeric_entries py_str ((k, PNum n) # rest) = (key_text py_str k, n) # numeric_entries py_str rest"
| "numeric_entries py_str ((k, v) # rest) = numeric_entries py_str rest"

text \<open>Assigning a list of entries, one after the other, to a dictionary.\<close>

definition dict_of_items :: "inventory \<Rightarrow> inventory \<Rightarrow> inventory" where
  "dict_of_items entries d = fold (\<lambda>(k, n) d. dict_set d k n) entries d"

section \<open>Rounding\<close>

declare int_to_float_def [simp]

lemma fl_one_pos: "0 < fl_one"
  by (simp add: fl_one_def)

lemma fl_top_large: "2 ^ 53 < fl_top" and fl_top_one: "2 ^ 53 * fl_one < fl_top"
  by (simp_all add: fl_top_def fl_one_def)

lemma round_mag_exact:
  assumes "2 ^ n dvd a" and "a < 2 ^ (n + 53)"
  shows "round_mag a = a"
proof (cases "nat (bitlen a - 53) = 0")
  case True
  then show ?thesis by (simp add: round_mag_def)
next
  case False
  define s where "s = nat (bitlen a - 53)"
  have "nat (int (n + 53)) = n + 53" by (rule nat_int)
  with assms(2) have "bitlen a \<le> int (n + 53)"
    by (simp only: bitlen_le_iff_power of_nat_0_le_iff simp_thms)
  then have "s \<le> n" by (simp add: s_def)
  then have "(2::int) ^ s dvd 2 ^ n" by (simp add: le_imp_power_dvd)
  with assms(1) have d: "2 ^ s dvd a" by (auto dest: dvd_trans)
  then have r: "a mod 2 ^ s = 0" by simp
  from d have q: "a div 2 ^ s * 2 ^ s = a" by simp
  from False have "s \<noteq> 0" by (simp add: s_def)
  with r q show ?thesis
    by (simp add: round_mag_def Let_def s_def [symmetric])
qed

lemma round_mag_pos:
  assumes "0 < a"
  shows "0 < round_mag a"
proof (cases "nat (bitlen a - 53) = 0")
  case True
  with assms show ?thesis by (simp add: round_mag_def)
next
  case False
  define s where "s = nat (bitlen a - 53)"
  from False have s: "s \<noteq> 0" by (simp add: s_def)
  then have "s \<le> nat (bitlen a - 1)" by (simp add: s_def)
  then have "(2::int) ^ s \<le> 2 ^ nat (bitlen a - 1)" by (simp add: power_increasing)
  also from assms have "\<dots> \<le> a" using bitlen_bounds [of a] by simp
  finally have q: "0 < a div 2 ^ s"
    by (simp add: pos_imp_zdiv_pos_iff)
  then have q1: "0 < a div 2 ^ s + 1" by simp
  from s q q1 show ?thesis
    by (simp add: round_mag_def Let_def s_def [symmetric])
qed

lemma round_mag_zero: "round_mag 0 = 0"
  by (simp add: round_mag_def)

lemma fl_round_exact:
  assumes "2 ^ n dvd k" and "\<bar>k\<bar> < 2 ^ (n + 53)" and "\<bar>k\<bar> < fl_top"
  shows "fl_round k = Finite k"
proof -
  from assms(1) have "2 ^ n dvd \<bar>k\<bar>" by simp
  then have "round_mag \<bar>k\<bar> = \<bar>k\<bar>" using assms(2) by (rule round_mag_exact)
  moreover have "(if k < 0 then - \<bar>k\<bar> else \<bar>k\<bar>) = k" by simp
  ultimately show ?thesis using assms(3) by (simp add: fl_round_def Let_def)
qed

lemma fl_round_small: "\<bar>k\<bar> < 2 ^ 53 \<Longrightarrow> fl_round k = Finite k"
  using fl_round_exact [of 0 k] fl_top_large by simp

lemma fl_round_zero: "fl_round 0 = Finite 0"
  by (simp add: fl_round_small)

lemma fl_round_int:
  assumes "\<bar>i\<bar> < 2 ^ 53"
  shows "fl_round (i * fl_one) = Finite (i * fl_one)"
proof (rule fl_round_exact [of 1074])
  show "2 ^ 1074 dvd i * fl_one" by (simp add: fl_one_def)
  have e: "\<bar>i * fl_one\<bar> = \<bar>i\<bar> * fl_one" using fl_one_pos by (simp add: abs_mult)
  from assms fl_one_pos have l: "\<bar>i\<bar> * fl_one < 2 ^ 53 * fl_one" by simp
  then show "\<bar>i * fl_one\<bar> < 2 ^ (1074 + 53)"
    unfolding e by (simp only: power_add fl_one_def mult.commute)
  from l fl_top_one show "\<bar>i * fl_one\<bar> < fl_top" unfolding e by (rule less_trans)
qed

text \<open>The sign of a rounded value is the sign of the exact one.\<close>

lemma fl_round_pos: "0 < k \<Longrightarrow> fl_less (Finite 0) (fl_round k)"
  using round_mag_pos [of k] by (simp add: fl_round_def Let_def)

lemma fl_round_neg: "k < 0 \<Longrightarrow> fl_less (fl_round k) (Finite 0)"
  using round_mag_pos [of "- k"] by (simp add: fl_round_def Let_def)

lemma fl_round_not_nan: "fl_round k \<noteq> NaN"
  by (simp add: fl_round_def Let_def)

section \<open>Comparing and adding numbers\<close>

lemma exact_int: "int_of n = Some i \<Longrightarrow> exact n = Finite (i * fl_one)"
  by (cases n) auto

lemma num_lt_int: "int_of a = Some i \<Longrightarrow> int_of b = Some j \<Longrightarrow> num_lt a b = (i < j)"
  using fl_one_pos by (simp add: num_lt_def exact_int)

lemma num_le_int: "int_of a = Some i \<Longrightarrow> int_of b = Some j \<Longrightarrow> num_le a b = (i \<le> j)"
  using fl_one_pos by (simp add: num_le_def exact_int)

lemma exact_zero: "exact (PInt 0) = Finite 0"
  by simp

lemma exact_nan: "exact q = NaN \<longleftrightarrow> q = PFloat NaN"
  by (cases q) auto

lemma fl_less_imp_le: "fl_less x y \<Longrightarrow> fl_le x y"
  by (cases x; cases y) auto

lemma fl_not_le_zero: "x \<noteq> NaN \<Longrightarrow> \<not> fl_le x (Finite 0) \<Longrightarrow> fl_less (Finite 0) x"
  by (cases x) auto

lemma fl_not_less_zero: "x \<noteq> NaN \<Longrightarrow> \<not> fl_less x (Finite 0) \<Longrightarrow> fl_le (Finite 0) x"
  by (cases x) auto

lemma num_not_le_zero: "q \<noteq> PFloat NaN \<Longrightarrow> \<not> num_le q (PInt 0) \<Longrightarrow> num_lt (PInt 0) q"
  unfolding num_le_def num_lt_def exact_zero by (rule fl_not_le_zero) (simp_all add: exact_nan)

lemma num_not_less_zero: "q \<noteq> PFloat NaN \<Longrightarrow> \<not> num_lt q (PInt 0) \<Longrightarrow> num_le (PInt 0) q"
  unfolding num_le_def num_lt_def exact_zero by (rule fl_not_less_zero) (simp_all add: exact_nan)

lemma fl_round_nonneg: "0 \<le> k \<Longrightarrow> fl_le (Finite 0) (fl_round k)"
  using fl_round_pos [of k] by (cases "k = 0") (auto simp: fl_round_zero dest: fl_less_imp_le)

lemma fl_add_pos: "fl_less (Finite 0) x \<Longrightarrow> fl_le (Finite 0) y \<Longrightarrow> fl_less (Finite 0) (fl_add x y)"
  by (cases x; cases y) (auto simp: fl_round_pos)

lemma fl_add_pos2: "fl_le (Finite 0) x \<Longrightarrow> fl_less (Finite 0) y \<Longrightarrow> fl_less (Finite 0) (fl_add x y)"
  by (cases x; cases y) (auto simp: fl_round_pos)

lemma float_of_int:
  "int_of n = Some i \<Longrightarrow> float_of n = Some x \<Longrightarrow> x = fl_round (i * fl_one) \<and> (\<exists>k. x = Finite k)"
  using fl_round_not_nan [of "i * fl_one"]
  by (cases n; cases "fl_round (i * fl_one)") (auto split: if_splits)

lemma float_of_pos:
  assumes "float_of n = Some x" and "fl_less (Finite 0) (exact n)"
  shows "fl_less (Finite 0) x"
proof (cases "int_of n")
  case None
  with assms show ?thesis by (cases n) auto
next
  case (Some i)
  with assms(2) fl_one_pos have "0 < i * fl_one" by (simp add: exact_int)
  then have "fl_less (Finite 0) (fl_round (i * fl_one))" by (rule fl_round_pos)
  with float_of_int [OF Some assms(1)] show ?thesis by simp
qed

lemma float_of_nonneg:
  assumes "float_of n = Some x" and "fl_le (Finite 0) (exact n)"
  shows "fl_le (Finite 0) x"
proof (cases "int_of n")
  case None
  with assms show ?thesis by (cases n) auto
next
  case (Some i)
  with assms(2) fl_one_pos have "0 \<le> i * fl_one" by (simp add: exact_int)
  then have "fl_le (Finite 0) (fl_round (i * fl_one))" by (rule fl_round_nonneg)
  with float_of_int [OF Some assms(1)] show ?thesis by simp
qed

lemma py_add_cases:
  assumes "py_add a b = Some t"
  obtains (ints) i j where "int_of a = Some i" "int_of b = Some j" "t = PInt (i + j)"
  | (floats) x y where "float_of a = Some x" "float_of b = Some y" "t = PFloat (fl_add x y)"
  using assms by (auto simp: py_add_def split: option.splits)

lemma py_sub_cases:
  assumes "py_sub a b = Some t"
  obtains (ints) i j where "int_of a = Some i" "int_of b = Some j" "t = PInt (i - j)"
  | (floats) x y where "float_of a = Some x" "float_of b = Some y" "t = PFloat (fl_sub x y)"
    "int_of a = None \<or> int_of b = None"
  using assms by (auto simp: py_sub_def split: option.splits)

lemma py_add_pos:
  assumes "num_lt (PInt 0) c" and "num_le (PInt 0) q" and "py_add c q = Some t"
  shows "num_lt (PInt 0) t"
  using assms(3)
proof (cases rule: py_add_cases)
  case (ints i j)
  with assms(1,2) show ?thesis by (simp add: num_lt_int num_le_int)
next
  case (floats x y)
  from floats(1) assms(1) have "fl_less (Finite 0) x"
    unfolding num_lt_def exact_zero by (rule float_of_pos)
  moreover from floats(2) assms(2) have "fl_le (Finite 0) y"
    unfolding num_le_def exact_zero by (rule float_of_nonneg)
  ultimately show ?thesis by (simp add: floats(3) num_lt_def fl_add_pos)
qed

lemma py_add_pos2:
  assumes "num_le (PInt 0) c" and "num_lt (PInt 0) q" and "py_add c q = Some t"
  shows "num_lt (PInt 0) t"
  using assms(3)
proof (cases rule: py_add_cases)
  case (ints i j)
  with assms(1,2) show ?thesis by (simp add: num_lt_int num_le_int)
next
  case (floats x y)
  from floats(1) assms(1) have "fl_le (Finite 0) x"
    unfolding num_le_def exact_zero by (rule float_of_nonneg)
  moreover from floats(2) assms(2) have "fl_less (Finite 0) y"
    unfolding num_lt_def exact_zero by (rule float_of_pos)
  ultimately show ?thesis by (simp add: floats(3) num_lt_def fl_add_pos2)
qed

lemma float_of_float: "int_of n = None \<Longrightarrow> float_of n = Some x \<Longrightarrow> n = PFloat x"
  by (cases n) auto

lemma fl_sub_nan:
  "fl_sub x y = NaN \<Longrightarrow>
   x = NaN \<or> y = NaN \<or> (x = PosInf \<and> y = PosInf) \<or> (x = NegInf \<and> y = NegInf)"
  by (cases x; cases y) (auto simp: fl_sub_def fl_round_not_nan)

lemma py_sub_nan:
  assumes "py_sub s q = Some (PFloat NaN)"
  shows "s = PFloat NaN \<or> q = PFloat NaN \<or> (s = PFloat PosInf \<and> q = PFloat PosInf)
         \<or> (s = PFloat NegInf \<and> q = PFloat NegInf)"
  using assms
proof (cases rule: py_sub_cases)
  case (ints i j)
  then show ?thesis by simp
next
  case (floats x y)
  from floats(3) have nan: "fl_sub x y = NaN" by simp
  have sx: "s = PFloat x \<or> (\<exists>k. x = Finite k)"
    using floats(1) by (cases "int_of s") (auto dest: float_of_float float_of_int)
  have qy: "q = PFloat y \<or> (\<exists>k. y = Finite k)"
    using floats(2) by (cases "int_of q") (auto dest: float_of_float float_of_int)
  from fl_sub_nan [OF nan] sx qy show ?thesis by auto
qed

lemma fl_le_not_less: "fl_le x y \<Longrightarrow> \<not> fl_less y x"
  by (cases x; cases y) auto

lemma fl_less_not_le: "fl_less x y \<Longrightarrow> \<not> fl_le y x"
  by (cases x; cases y) auto

lemma num_le_not_lt: "num_le a b \<Longrightarrow> \<not> num_lt b a"
  by (simp add: num_le_def num_lt_def fl_le_not_less)

lemma num_lt_not_le: "num_lt a b \<Longrightarrow> \<not> num_le b a"
  by (simp add: num_le_def num_lt_def fl_less_not_le)

lemma py_add_int: "int_of a = Some i \<Longrightarrow> int_of b = Some j \<Longrightarrow> py_add a b = Some (PInt (i + j))"
  by (simp add: py_add_def)

lemma py_sub_int: "int_of a = Some i \<Longrightarrow> int_of b = Some j \<Longrightarrow> py_sub a b = Some (PInt (i - j))"
  by (simp add: py_sub_def)

text \<open>An exact value of \<open>2\<^sup>1\<^sup>0\<^sup>2\<^sup>4\<close> or more rounds to an infinity.\<close>

lemma round_mag_top:
  assumes "fl_top \<le> a"
  shows "fl_top \<le> round_mag a"
proof -
  define s where "s = nat (bitlen a - 53)"
  have "(0::int) < fl_top" by (simp add: fl_top_def)
  with assms have a: "0 < a" by simp
  from assms have "2 ^ (nat 2099 - 1) \<le> a" by (simp add: fl_top_def)
  then have "2099 \<le> bitlen a" by (simp only: bitlen_ge_iff_power simp_thms)
  then have s: "2046 \<le> s" by (simp add: s_def)
  then have s0: "s \<noteq> 0" by simp
  define q where "q = a div 2 ^ s"
  define m where "m = (if a mod 2 ^ s < 2 ^ (s - 1) then q
      else if 2 ^ (s - 1) < a mod 2 ^ s then q + 1 else if even q then q else q + 1)"
  from s0 have r: "round_mag a = m * 2 ^ s"
    by (simp add: round_mag_def Let_def s_def [symmetric] q_def m_def)
  have "nat (bitlen a - 1) = s + 52" using s0 by (simp add: s_def)
  with bitlen_bounds [OF a(1)] have "2 ^ (s + 52) \<le> a" by simp
  then have "2 ^ 52 * 2 ^ s \<le> a" by (simp add: power_add mult.commute)
  then have "2 ^ 52 * 2 ^ s div 2 ^ s \<le> a div 2 ^ s" by (rule zdiv_mono1) simp
  then have "2 ^ 52 \<le> q" by (simp add: q_def)
  moreover have "q \<le> m" by (simp add: m_def)
  ultimately have "2 ^ 52 \<le> m" by simp
  then have "2 ^ 52 * 2 ^ s \<le> m * 2 ^ s" by simp
  moreover have "fl_top \<le> 2 ^ (52 + s)"
    unfolding fl_top_def by (rule power_increasing) (use s in simp_all)
  moreover have "(2::int) ^ (52 + s) = 2 ^ 52 * 2 ^ s" by (simp only: power_add)
  ultimately show ?thesis by (simp only: r)
qed

lemma fl_round_top: "fl_top \<le> \<bar>k\<bar> \<Longrightarrow> fl_round k = (if k < 0 then NegInf else PosInf)"
  using round_mag_top [of "\<bar>k\<bar>"] by (simp add: fl_round_def Let_def)

lemma float_of_huge:
  assumes "2 ^ 1024 \<le> \<bar>i\<bar>"
  shows "float_of (PInt i) = None"
proof -
  have "fl_top = 2 ^ 1024 * fl_one" by (simp add: fl_top_def fl_one_def)
  also from assms fl_one_pos have "\<dots> \<le> \<bar>i\<bar> * fl_one" by simp
  also from fl_one_pos have "\<dots> = \<bar>i * fl_one\<bar>" by (simp add: abs_mult)
  finally have "fl_round (i * fl_one) = (if i * fl_one < 0 then NegInf else PosInf)"
    by (rule fl_round_top)
  then show ?thesis by simp
qed

lemma float_of_small: "\<bar>i\<bar> < 2 ^ 53 \<Longrightarrow> float_of (PInt i) = Some (Finite (i * fl_one))"
  by (simp add: fl_round_int)

lemma exact_finite_cases:
  assumes "exact n = Finite k"
  obtains (int) i where "int_of n = Some i" "k = i * fl_one"
  | (float) "n = PFloat (Finite k)"
  using assms by (cases n) (auto split: if_splits)

lemma float_of_double:
  assumes "exact n = Finite k" and "fl_round k = Finite k"
  shows "float_of n = Some (Finite k)"
  using assms(1)
proof (cases rule: exact_finite_cases)
  case (int i)
  with assms(2) show ?thesis by (cases n) auto
next
  case float
  then show ?thesis by simp
qed

text \<open>Taking a finite stock away whole leaves zero.\<close>

lemma py_sub_equal:
  assumes "exact s = Finite k" and "exact q = Finite k" and "is_double s" and "is_double q"
  shows "\<exists>left. py_sub s q = Some left \<and> num_le left (PInt 0)"
proof (cases "int_of s = None \<or> int_of q = None")
  case False
  then obtain i j where ij: "int_of s = Some i" "int_of q = Some j" by auto
  with assms(1,2) have "i * fl_one = j * fl_one" by (simp add: exact_int)
  with fl_one_pos have "i = j" by simp
  with ij show ?thesis by (simp add: py_sub_int num_le_int)
next
  case True
  then have "s = PFloat (Finite k) \<or> q = PFloat (Finite k)"
    using assms(1,2) by (cases s; cases q) auto
  with assms(3,4) have d: "fl_round k = Finite k" by auto
  from assms(1) d have "float_of s = Some (Finite k)" by (rule float_of_double)
  moreover from assms(2) d have "float_of q = Some (Finite k)" by (rule float_of_double)
  ultimately have "py_sub s q = Some (PFloat (Finite 0))"
    using True by (auto simp: py_sub_def fl_sub_def fl_round_zero split: option.splits)
  then show ?thesis by (simp add: num_le_def)
qed

lemma num_equal_finite:
  assumes "num_le q s" and "num_le s q" and "s \<noteq> PFloat PosInf" and "num_lt (PInt 0) q"
  shows "\<exists>k. exact s = Finite k \<and> exact q = Finite k"
proof -
  from assms(3) have "exact s \<noteq> PosInf" by (cases s) auto
  with assms(1,2,4) show ?thesis
    unfolding num_le_def num_lt_def exact_zero
    by (cases "exact s"; cases "exact q") auto
qed

text \<open>
  Two roundings, as the interpreter does them. \<^verbatim>\<open>float(2**53 + 1)\<close> is
  \<^verbatim>\<open>9007199254740992.0\<close>: a tie, to the even significand. And \<^verbatim>\<open>1.0 + 1e-17\<close> is
  \<^verbatim>\<open>1.0\<close>: \<^verbatim>\<open>1e-17\<close> is the double \<open>6490371073168535 \<times> 2\<^sup>-\<^sup>1\<^sup>0\<^sup>9\<close>, less than half a unit in the
  last place of 1.0.
\<close>

lemma round_mag_bits:
  assumes "2 ^ (n + 52) \<le> a" and "a < 2 ^ (n + 53)" and "0 < n"
  shows "round_mag a =
    (let q = a div 2 ^ n; r = a mod 2 ^ n; h = 2 ^ (n - 1)
     in (if r < h then q else if h < r then q + 1 else if even q then q else q + 1) * 2 ^ n)"
proof -
  have "nat (int (n + 53)) - 1 = n + 52" by simp
  with assms(1) have "int (n + 53) \<le> bitlen a"
    by (simp only: bitlen_ge_iff_power simp_thms)
  moreover have "bitlen a \<le> int (n + 53)"
    using assms(2) by (simp only: bitlen_le_iff_power nat_int of_nat_0_le_iff simp_thms)
  ultimately have "bitlen a = int (n + 53)" by simp
  then have "nat (bitlen a - 53) = n" by simp
  with assms(3) show ?thesis by (simp add: round_mag_def Let_def)
qed

lemma int_to_float_tie: "int_to_float (2 ^ 53 + 1) = Some (Finite (2 ^ 53 * fl_one))"
proof -
  have "round_mag ((2 ^ 53 + 1) * 2 ^ 1074) = 2 ^ 53 * 2 ^ 1074"
    by (subst round_mag_bits [of 1075]) (simp_all add: Let_def)
  then show ?thesis by (simp add: fl_round_def fl_top_def fl_one_def)
qed

lemma fl_add_absorbs:
  "fl_add (Finite fl_one) (Finite (6490371073168535 * 2 ^ 965)) = Finite fl_one"
proof -
  have "round_mag (2 ^ 1074 + 6490371073168535 * 2 ^ 965) = 2 ^ 1074"
    by (subst round_mag_bits [of 1022]) (simp_all add: Let_def)
  then show ?thesis by (simp add: fl_round_def fl_top_def fl_one_def)
qed

text \<open>Comparison and arithmetic as they compute.\<close>

lemma num_lt_eval:
  "num_lt a b = (case (int_of a, int_of b) of
                   (Some i, Some j) \<Rightarrow> i < j | _ \<Rightarrow> fl_less (exact a) (exact b))"
  by (auto simp: num_lt_int split: option.splits) (simp_all add: num_lt_def)

lemma num_le_eval:
  "num_le a b = (case (int_of a, int_of b) of
                   (Some i, Some j) \<Rightarrow> i \<le> j | _ \<Rightarrow> fl_le (exact a) (exact b))"
  by (auto simp: num_le_int split: option.splits) (simp_all add: num_le_def)

lemma entry_fails_float: "\<not> entry_fails limit (PFloat x)" and
  entry_fails_bool: "\<not> entry_fails limit (PBool b)"
  by (simp_all add: entry_fails_def)

lemma entry_fails_zero: "\<not> entry_fails limit (PInt 0)"
  by (simp add: entry_fails_def not_le)

lemma fl_round_one: "fl_round fl_one = Finite fl_one"
  using fl_round_int [of 1] by simp

lemma float_of_zero: "float_of (PInt 0) = Some (Finite 0)"
  by (simp add: fl_round_zero)

lemma entry_passes: "\<bar>i\<bar> < 10 ^ 3 \<Longrightarrow> 3 \<le> limit \<Longrightarrow> \<not> entry_fails limit (PInt i)"
proof -
  assume a: "\<bar>i\<bar> < 10 ^ 3" and l: "3 \<le> limit"
  from l have "(10::int) ^ 3 \<le> 10 ^ limit" by (rule power_increasing) simp
  with a show ?thesis by (simp add: entry_fails_def)
qed

section \<open>Properties of the dictionary operations\<close>

lemma map_of_dict_set: "map_of (dict_set d k v) = (map_of d)(k \<mapsto> v)"
  by (induction d) (auto simp: fun_eq_iff)

lemma map_of_dict_del: "map_of (dict_del d k) = (map_of d)(k := None)"
  by (induction d) (auto simp: dict_del_def fun_eq_iff)

lemma keys_dict_set:
  "dict_keys (dict_set d k v) = (if k \<in> set (dict_keys d) then dict_keys d else dict_keys d @ [k])"
  by (induction d) (force simp: dict_keys_def)+

lemma keys_dict_del: "dict_keys (dict_del d k) = removeAll k (dict_keys d)"
  by (induction d) (auto simp: dict_keys_def dict_del_def)

lemma dict_ok_set: "dict_ok d \<Longrightarrow> dict_ok (dict_set d k v)"
  by (simp add: dict_ok_def keys_dict_set)

lemma dict_ok_del: "dict_ok d \<Longrightarrow> dict_ok (dict_del d k)"
  by (simp add: dict_ok_def keys_dict_del distinct_removeAll)

lemma dict_set_new: "k \<notin> set (dict_keys d) \<Longrightarrow> dict_set d k v = d @ [(k, v)]"
  by (induction d) (auto simp: dict_keys_def)

lemma keys_Cons: "dict_keys ((k, v) # d) = k # dict_keys d"
  by (simp add: dict_keys_def)

lemma map_of_eq_None_keys: "map_of d k = None \<longleftrightarrow> k \<notin> set (dict_keys d)"
  by (simp add: dict_keys_def map_of_eq_None_iff)

lemma keys_Nil: "dict_keys [] = []"
  by (simp add: dict_keys_def)

lemma set_keys_dict_set: "set (dict_keys (dict_set d k v)) = insert k (set (dict_keys d))"
  by (auto simp: keys_dict_set)

lemma dict_del_set: "dict_del (dict_set d k v) k = dict_del d k"
  by (induction d) (auto simp: dict_del_def)

section \<open>The loop of load_data\<close>

lemma load_items_numeric:
  "load_items py_str items d = dict_of_items (numeric_entries py_str items) d"
  by (induction py_str items arbitrary: d rule: numeric_entries.induct)
     (simp_all add: dict_of_items_def)

lemma dict_of_items_distinct:
  "distinct (dict_keys d @ dict_keys es) \<Longrightarrow> dict_of_items es d = d @ es"
proof (induction es arbitrary: d)
  case Nil
  then show ?case by (simp add: dict_of_items_def)
next
  case (Cons e es)
  obtain k n where e: "e = (k, n)" by (cases e)
  from Cons.prems have new: "k \<notin> set (dict_keys d)" by (auto simp: e keys_Cons)
  then have step: "dict_set d k n = d @ [(k, n)]" by (rule dict_set_new)
  from Cons.prems have "distinct (dict_keys (d @ [(k, n)]) @ dict_keys es)"
    by (auto simp: e dict_keys_def)
  then have "dict_of_items es (d @ [(k, n)]) = (d @ [(k, n)]) @ es" by (rule Cons.IH)
  then show ?case by (simp add: dict_of_items_def e step)
qed

lemma map_of_dict_of_items: "map_of (dict_of_items es d) = map_of d ++ map_of (rev es)"
  by (induction es arbitrary: d) (auto simp: dict_of_items_def map_of_dict_set)

lemma keys_dict_of_items:
  "set (dict_keys (dict_of_items es d)) = set (dict_keys d) \<union> set (dict_keys es)"
  by (induction es arbitrary: d) (auto simp: dict_of_items_def set_keys_dict_set keys_Cons keys_Nil)

lemma dict_ok_dict_of_items: "dict_ok d \<Longrightarrow> dict_ok (dict_of_items es d)"
  by (induction es arbitrary: d) (auto simp: dict_of_items_def dict_ok_set)


lemma low_items_lookup:
  "distinct (map fst d) \<Longrightarrow>
   [name. (name, qty) \<leftarrow> d, P qty] =
     filter (\<lambda>name. case map_of d name of None \<Rightarrow> False | Some qty \<Rightarrow> P qty) (map fst d)"
proof (induction d)
  case Nil
  then show ?case by simp
next
  case (Cons e d)
  obtain k v where e: "e = (k, v)" by (cases e)
  from Cons.prems have "k \<notin> set (map fst d)" and "distinct (map fst d)" by (simp_all add: e)
  then show ?case
    by (auto simp: e Cons.IH intro!: filter_cong)
qed

section \<open>Every key once: an invariant of the module\<close>

text \<open>
  The inventory starts empty and no call breaks \<open>dict_ok\<close>, so the statements below
  that assume it hold of every inventory the module can reach.
\<close>

lemma load_items_dict_ok: "dict_ok d \<Longrightarrow> dict_ok (load_items py_str items d)"
  by (simp add: load_items_numeric dict_ok_dict_of_items)

lemma run_call_dict_ok: "dict_ok d \<Longrightarrow> dict_ok (run_call py c d)"
proof (cases c)
  case (Add item qty)
  assume "dict_ok d"
  then show ?thesis
    by (auto simp: Add add_item_def Let_def dict_ok_set split: option.splits)
next
  case (Remove item qty)
  assume "dict_ok d"
  then show ?thesis
    by (auto simp: Remove remove_item_def Let_def dict_ok_set dict_ok_del dict_del_set
        split: option.splits)
next
  case (Load path)
  assume "dict_ok d"
  moreover have "dict_ok []" by (simp add: dict_ok_def dict_keys_def)
  ultimately show ?thesis
    by (auto simp: Load load_data_def load_items_dict_ok
        split: option.splits file_text.splits pyval.splits)
qed

lemma run_calls_dict_ok: "dict_ok d \<Longrightarrow> dict_ok (run_calls py calls d)"
  by (induction calls arbitrary: d) (simp_all add: run_call_dict_ok)

section \<open>Quantities above zero\<close>

lemma all_positive_set:
  "all_positive d \<Longrightarrow> num_lt (PInt 0) v \<Longrightarrow> all_positive (dict_set d k v)"
  by (induction d) (auto simp: all_positive_def)

lemma all_positive_del: "all_positive d \<Longrightarrow> all_positive (dict_del d k)"
  by (simp add: all_positive_def dict_del_def list_all_iff)

lemma all_positive_lookup: "all_positive d \<Longrightarrow> map_of d k = Some v \<Longrightarrow> num_lt (PInt 0) v"
  by (auto simp: all_positive_def list_all_iff dest: map_of_SomeD)

lemma positive_not_special:
  "num_lt (PInt 0) v \<Longrightarrow> v \<noteq> PFloat NaN \<and> v \<noteq> PFloat NegInf"
  by (auto simp: num_lt_def)

lemma add_item_positive:
  assumes "all_positive d" and "call_ok py d (Add item qty)"
  shows "all_positive (snd (add_item limit item qty d))"
proof (cases "as_name item")
  case None
  with assms(1) show ?thesis by (simp add: add_item_def)
next
  case (Some name)
  show ?thesis
  proof (cases "as_number qty")
    case None
    with Some assms(1) show ?thesis by (simp add: add_item_def)
  next
    case q: (Some q)
    define current where "current = (case map_of d name of None \<Rightarrow> PInt 0 | Some c \<Rightarrow> c)"
    show ?thesis
    proof (cases "num_lt q (PInt 0) \<or> py_add current q = None")
      case True
      with Some q assms(1) show ?thesis
        by (auto simp: add_item_def current_def)
    next
      case False
      then obtain t where t: "py_add current q = Some t" by auto
      from assms(2) Some q have nan: "q \<noteq> PFloat NaN"
        and zero: "\<not> (num_le q (PInt 0) \<and> num_le (PInt 0) q \<and> map_of d name = None)"
        by simp_all
      from nan False have ge: "num_le (PInt 0) q" by (simp add: num_not_less_zero)
      have "num_lt (PInt 0) t"
      proof (cases "map_of d name")
        case None
        with zero ge nan have qpos: "num_lt (PInt 0) q" by (simp add: num_not_le_zero)
        have z: "num_le (PInt 0) (PInt 0)" by (simp add: num_le_int)
        from None t have "py_add (PInt 0) q = Some t" by (simp add: current_def)
        with z qpos show ?thesis by (rule py_add_pos2)
      next
        case c: (Some c)
        with assms(1) have "num_lt (PInt 0) c" by (simp add: all_positive_lookup)
        moreover from c t have "py_add c q = Some t" by (simp add: current_def)
        ultimately show ?thesis using ge by (simp add: py_add_pos)
      qed
      with Some q False t assms(1) show ?thesis
        by (simp add: add_item_def Let_def current_def [symmetric] all_positive_set)
    qed
  qed
qed

lemma remove_item_positive:
  assumes "all_positive d" and "call_ok py d (Remove item qty)"
  shows "all_positive (snd (remove_item item qty d))"
proof (cases "\<exists>name q c left. as_name item = Some name \<and> as_number qty = Some q \<and>
    \<not> num_le q (PInt 0) \<and> map_of d name = Some c \<and> \<not> num_lt c q \<and> py_sub c q = Some left")
  case False
  with assms(1) show ?thesis
    by (auto simp: remove_item_def split: option.splits)
next
  case True
  then obtain name q c left where h: "as_name item = Some name" "as_number qty = Some q"
    "\<not> num_le q (PInt 0)" "map_of d name = Some c" "\<not> num_lt c q" "py_sub c q = Some left"
    by blast
  from assms(1) h(4) have c: "num_lt (PInt 0) c" by (rule all_positive_lookup)
  from assms(2) h have q: "q \<noteq> PFloat NaN" "\<not> (q = PFloat PosInf \<and> c = PFloat PosInf)"
    by simp_all
  have "left \<noteq> PFloat NaN"
    using py_sub_nan [of c q] h(6) q positive_not_special [OF c] by auto
  then have pos: "\<not> num_le left (PInt 0) \<Longrightarrow> num_lt (PInt 0) left"
    by (rule num_not_le_zero)
  from h assms(1) pos show ?thesis
    by (auto simp: remove_item_def Let_def all_positive_set all_positive_del dict_del_set)
qed

lemma load_items_positive:
  "list_all (\<lambda>(k, v). case as_number v of None \<Rightarrow> True | Some n \<Rightarrow> num_lt (PInt 0) n) items \<Longrightarrow>
   all_positive d \<Longrightarrow> all_positive (load_items py_str items d)"
  by (induction py_str items d rule: load_items.induct)
     (auto simp: all_positive_set split: option.splits)

lemma load_data_positive:
  assumes "all_positive d" and "call_ok py d (Load path)"
  shows "all_positive (load_data (str_of py) (files py) path d)"
proof (cases "\<exists>items. content (files py) path = Some (Json (PDict items))")
  case True
  then obtain items where c: "content (files py) path = Some (Json (PDict items))" by blast
  have "all_positive []" by (simp add: all_positive_def)
  with assms(2) c show ?thesis
    by (simp add: load_data_def load_items_positive)
next
  case False
  with assms(1) show ?thesis
    by (auto simp: load_data_def split: option.splits file_text.splits pyval.splits)
qed

lemma run_call_positive:
  "all_positive d \<Longrightarrow> call_ok py d c \<Longrightarrow> all_positive (run_call py c d)"
  by (cases c) (simp_all add: add_item_positive remove_item_positive load_data_positive)

text \<open>
  The log entry of \<^verbatim>\<open>add_item\<close>: an \<^verbatim>\<open>int\<close> of more digits than the limit is stored,
  and then the call raises.
\<close>

lemma add_item_entry_failure:
  assumes "name \<noteq> []" and "0 < limit"
  shows "add_item limit (PStr name) (PNum (PInt (10 ^ limit))) []
           = (Inl ValueError, [(name, PInt (10 ^ limit))])"
  using assms by (simp add: add_item_def py_add_def entry_fails_def num_lt_eval)

section \<open>The claims\<close>

subsection \<open>C1: quantities above zero\<close>

text \<open>
  C1 says that after any sequence of \<^verbatim>\<open>add_item\<close>, \<^verbatim>\<open>remove_item\<close> and \<^verbatim>\<open>load_data\<close>
  calls every entry of the inventory has a quantity above zero. The code keeps that only
  for some calls: \<^verbatim>\<open>add_item\<close> accepts a \<^verbatim>\<open>qty\<close> of 0 (its guard is \<^verbatim>\<open>qty < 0\<close>) and
  not-a-number (no comparison with it is true), \<^verbatim>\<open>remove_item\<close> accepts not-a-number
  too and leaves it where infinity is taken from infinity, and \<^verbatim>\<open>load_data\<close> stores
  every number of the file, whatever its sign. What holds: from an inventory whose
  quantities are all above zero (the empty one is), a sequence of such calls leaves
  every quantity above zero, provided that no \<^verbatim>\<open>add_item\<close> adds not-a-number, or a zero
  of an item that is absent at that moment; that no \<^verbatim>\<open>remove_item\<close> takes not-a-number,
  or infinity from a stock of infinity, from an item that is present; and that every
  JSON object loaded has only numbers above zero. Integers, booleans and floats alike.
\<close>

theorem positive_invariant:
  "all_positive stock_data \<Longrightarrow> calls_ok py stock_data calls \<Longrightarrow>
   all_positive (run_calls py calls stock_data)"
  by (induction calls arbitrary: stock_data) (simp_all add: run_call_positive)

theorem positive_invariant_witness:
  "all_positive [] \<and>
   calls_ok
     \<lparr>int_max_str_digits = 4300, str_of = (\<lambda>k. ''key''),
        files = \<lparr>content = (\<lambda>p. if p = ''inventory.json''
                   then Some (Json (PDict [(PStr ''pear'', PNum (PInt 4)), (PStr ''note'', PStr ''none'')]))
                   else None),
                 writable = (\<lambda>p. True)\<rparr>\<rparr> []
     [Add (PStr ''apple'') (PNum (PInt 10)), Add (PStr ''apple'') (PNum (PInt 0)),
      Remove (PStr ''apple'') (PNum (PInt 10)), Load ''inventory.json'',
      Add (PStr ''banana'') (PNum (PFloat (Finite fl_one))), Remove (PStr ''pear'') (PNum (PInt 1))] \<and>
   run_calls
     \<lparr>int_max_str_digits = 4300, str_of = (\<lambda>k. ''key''),
        files = \<lparr>content = (\<lambda>p. if p = ''inventory.json''
                   then Some (Json (PDict [(PStr ''pear'', PNum (PInt 4)), (PStr ''note'', PStr ''none'')]))
                   else None),
                 writable = (\<lambda>p. True)\<rparr>\<rparr>
     [Add (PStr ''apple'') (PNum (PInt 10)), Add (PStr ''apple'') (PNum (PInt 0)),
      Remove (PStr ''apple'') (PNum (PInt 10)), Load ''inventory.json'',
      Add (PStr ''banana'') (PNum (PFloat (Finite fl_one))), Remove (PStr ''pear'') (PNum (PInt 1))] []
   = [(''pear'', PInt 3), (''banana'', PFloat (Finite fl_one))] \<and>
   all_positive [(''pear'', PInt 3), (''banana'', PFloat (Finite fl_one))]"
  using fl_one_pos positive_invariant [of "[]"
      "\<lparr>int_max_str_digits = 4300, str_of = (\<lambda>k. ''key''),
        files = \<lparr>content = (\<lambda>p. if p = ''inventory.json''
                   then Some (Json (PDict [(PStr ''pear'', PNum (PInt 4)), (PStr ''note'', PStr ''none'')]))
                   else None),
                 writable = (\<lambda>p. True)\<rparr>\<rparr>"
      "[Add (PStr ''apple'') (PNum (PInt 10)), Add (PStr ''apple'') (PNum (PInt 0)),
      Remove (PStr ''apple'') (PNum (PInt 10)), Load ''inventory.json'',
      Add (PStr ''banana'') (PNum (PFloat (Finite fl_one))), Remove (PStr ''pear'') (PNum (PInt 1))]"]
  by (simp add: all_positive_def add_item_def remove_item_def load_data_def num_lt_eval
      num_le_eval py_add_def py_sub_def entry_passes entry_fails_float dict_del_def
      fl_round_zero fl_round_one)

text \<open>
  Adding 0 of an item that is absent leaves an entry of quantity 0; loading a file that
  holds a negative number leaves that number in the inventory; adding not-a-number
  leaves not-a-number; and taking infinity from a stock of infinity leaves not-a-number.
\<close>

theorem positive_invariant_counterexample:
  "\<not> all_positive
       (run_calls \<lparr>int_max_str_digits = 4300, str_of = (\<lambda>k. ''key''),
          files = \<lparr>content = (\<lambda>p. None), writable = (\<lambda>p. True)\<rparr>\<rparr>
          [Add (PStr ''apple'') (PNum (PInt 0))] []) \<and>
   \<not> all_positive
       (run_calls \<lparr>int_max_str_digits = 4300, str_of = (\<lambda>k. ''key''),
          files = \<lparr>content = (\<lambda>p. Some (Json (PDict [(PStr ''apple'', PNum (PInt (- 5)))]))),
                   writable = (\<lambda>p. True)\<rparr>\<rparr>
          [Load ''inventory.json''] []) \<and>
   \<not> all_positive
       (run_calls \<lparr>int_max_str_digits = 4300, str_of = (\<lambda>k. ''key''),
          files = \<lparr>content = (\<lambda>p. None), writable = (\<lambda>p. True)\<rparr>\<rparr>
          [Add (PStr ''apple'') (PNum (PFloat NaN))] []) \<and>
   \<not> all_positive
       (run_calls \<lparr>int_max_str_digits = 4300, str_of = (\<lambda>k. ''key''),
          files = \<lparr>content = (\<lambda>p. None), writable = (\<lambda>p. True)\<rparr>\<rparr>
          [Add (PStr ''apple'') (PNum (PFloat PosInf)),
           Remove (PStr ''apple'') (PNum (PFloat PosInf))] [])"
  by (simp add: add_item_def remove_item_def load_data_def all_positive_def num_lt_eval
      num_le_eval py_add_def py_sub_def fl_sub_def entry_passes entry_fails_float
      fl_round_zero)

subsection \<open>C2: saving, then loading\<close>



subsection \<open>C3: adding, then asking\<close>

text \<open>
  C3 says that for a name that is not empty and every number \<^verbatim>\<open>qty\<close> that is not
  negative, \<^verbatim>\<open>add_item(item, qty)\<close> and then \<^verbatim>\<open>get_qty(item)\<close> return what \<^verbatim>\<open>get_qty\<close>
  returned before plus \<^verbatim>\<open>qty\<close>. When one of the two is a \<^verbatim>\<open>float\<close> and the other an
  \<^verbatim>\<open>int\<close> too large for a \<^verbatim>\<open>float\<close>, the sum raises \<^verbatim>\<open>OverflowError\<close> and the inventory
  stays as it was. What holds, \<^verbatim>\<open>prior\<close> being what \<^verbatim>\<open>get_qty(item)\<close> returned before
  (0 when the item was absent): when \<^verbatim>\<open>prior + qty\<close> can be computed, after the call
  \<^verbatim>\<open>get_qty(item)\<close> returns \<^verbatim>\<open>prior + qty\<close>, the exact sum for two integers, and the item
  is a key; the call returns, unless \<^verbatim>\<open>qty\<close> is an \<^verbatim>\<open>int\<close> of more digits than the
  interpreter formats, and then it raises \<^verbatim>\<open>ValueError\<close> with the sum already stored.
  When \<^verbatim>\<open>prior + qty\<close> cannot be computed the call raises \<^verbatim>\<open>OverflowError\<close> and changes
  nothing.
\<close>

theorem add_item_then_get_qty:
  assumes "name \<noteq> []" and "num_le (PInt 0) q"
    and "fst (get_qty (PStr name) stock_data) = Inr prior"
  shows "(case py_add prior q of
            None \<Rightarrow>
              add_item limit (PStr name) (PNum q) stock_data = (Inl OverflowError, stock_data)
          | Some stored \<Rightarrow>
              fst (add_item limit (PStr name) (PNum q) stock_data)
                = (if entry_fails limit q then Inl ValueError else Inr ()) \<and>
              fst (get_qty (PStr name) (snd (add_item limit (PStr name) (PNum q) stock_data)))
                = Inr stored \<and>
              name \<in> set (dict_keys (snd (add_item limit (PStr name) (PNum q) stock_data)))) \<and>
         (name \<notin> set (dict_keys stock_data) \<longrightarrow> prior = PInt 0) \<and>
         (\<forall>i j. int_of prior = Some i \<and> int_of q = Some j \<longrightarrow>
            py_add prior q = Some (PInt (i + j)))"
proof -
  from assms(1,3) have prior: "prior = (case map_of stock_data name of None \<Rightarrow> PInt 0 | Some c \<Rightarrow> c)"
    by (simp add: get_qty_def)
  from assms(2) have guard: "\<not> num_lt q (PInt 0)" by (rule num_le_not_lt)
  have absent: "name \<notin> set (dict_keys stock_data) \<longrightarrow> prior = PInt 0"
    by (simp add: prior map_of_eq_None_keys [symmetric])
  have ints: "\<forall>i j. int_of prior = Some i \<and> int_of q = Some j \<longrightarrow>
      py_add prior q = Some (PInt (i + j))"
    by (simp add: py_add_int)
  show ?thesis
  proof (cases "py_add prior q")
    case None
    with assms(1) guard have "add_item limit (PStr name) (PNum q) stock_data
        = (Inl OverflowError, stock_data)"
      by (simp add: add_item_def prior)
    with None absent ints show ?thesis by simp
  next
    case (Some stored)
    with assms(1) guard have "add_item limit (PStr name) (PNum q) stock_data
        = (if entry_fails limit q then Inl ValueError else Inr (),
           dict_set stock_data name stored)"
      by (simp add: add_item_def prior Let_def)
    with Some absent ints assms(1) show ?thesis
      by (simp add: get_qty_def map_of_dict_set set_keys_dict_set)
  qed
qed

theorem add_item_then_get_qty_witness:
  "''apple'' \<noteq> [] \<and> num_le (PInt 0) (PInt 3) \<and>
   fst (get_qty (PStr ''apple'') [(''apple'', PInt 10)]) = Inr (PInt 10) \<and>
   py_add (PInt 10) (PInt 3) = Some (PInt 13) \<and>
   fst (add_item 4300 (PStr ''apple'') (PNum (PInt 3)) [(''apple'', PInt 10)]) = Inr () \<and>
   fst (get_qty (PStr ''apple'')
          (snd (add_item 4300 (PStr ''apple'') (PNum (PInt 3)) [(''apple'', PInt 10)])))
     = Inr (PInt 13) \<and>
   ''pear'' \<notin> set (dict_keys [(''apple'', PInt 10)]) \<and>
   num_le (PInt 0) (PFloat (Finite fl_one)) \<and>
   fst (get_qty (PStr ''pear'') [(''apple'', PInt 10)]) = Inr (PInt 0) \<and>
   py_add (PInt 0) (PFloat (Finite fl_one)) = Some (PFloat (Finite fl_one)) \<and>
   snd (add_item 4300 (PStr ''pear'') (PNum (PFloat (Finite fl_one))) [(''apple'', PInt 10)])
     = [(''apple'', PInt 10), (''pear'', PFloat (Finite fl_one))] \<and>
   fst (get_qty (PStr ''pear'')
          (snd (add_item 4300 (PStr ''pear'') (PNum (PFloat (Finite fl_one))) [(''apple'', PInt 10)])))
     = Inr (PFloat (Finite fl_one))"
  using fl_one_pos
    add_item_then_get_qty [of "''apple''" "PInt 3" "[(''apple'', PInt 10)]" "PInt 10" 4300]
    add_item_then_get_qty [of "''pear''" "PFloat (Finite fl_one)" "[(''apple'', PInt 10)]"
      "PInt 0" 4300]
  by (simp add: get_qty_def add_item_def dict_keys_def num_lt_eval num_le_eval py_add_def
      entry_passes entry_fails_float fl_round_zero fl_round_one)

text \<open>
  A stock of \<open>2\<^sup>1\<^sup>0\<^sup>2\<^sup>4\<close>, an \<^verbatim>\<open>int\<close>, and a \<^verbatim>\<open>qty\<close> of 1.0: the sum raises
  \<^verbatim>\<open>OverflowError\<close>, and \<^verbatim>\<open>get_qty\<close> returns the stock as it was.
\<close>

theorem add_item_then_get_qty_counterexample:
  "num_le (PInt 0) (PFloat (Finite fl_one)) \<and>
   fst (get_qty (PStr ''apple'') [(''apple'', PInt (2 ^ 1024))]) = Inr (PInt (2 ^ 1024)) \<and>
   add_item 4300 (PStr ''apple'') (PNum (PFloat (Finite fl_one))) [(''apple'', PInt (2 ^ 1024))]
     = (Inl OverflowError, [(''apple'', PInt (2 ^ 1024))]) \<and>
   fst (get_qty (PStr ''apple'')
          (snd (add_item 4300 (PStr ''apple'') (PNum (PFloat (Finite fl_one)))
                  [(''apple'', PInt (2 ^ 1024))])))
     = Inr (PInt (2 ^ 1024))"
proof -
  have "float_of (PInt (2 ^ 1024)) = None" by (rule float_of_huge) simp
  then have "py_add (PInt (2 ^ 1024)) (PFloat (Finite fl_one)) = None"
    by (simp add: py_add_def del: float_of.simps)
  with fl_one_pos show ?thesis
    by (simp add: add_item_def get_qty_def num_lt_eval num_le_eval del: float_of.simps)
qed

subsection \<open>C4: removing from stock\<close>

text \<open>
  C4 says that for every item that is present with stock \<^verbatim>\<open>s\<close> and every number
  \<^verbatim>\<open>qty\<close> with \<^verbatim>\<open>0 < qty <= s\<close>, \<^verbatim>\<open>remove_item(item, qty)\<close> takes \<^verbatim>\<open>qty\<close> from the stock and
  deletes the entry when what is left is 0 or below, as when \<^verbatim>\<open>qty\<close> is the whole
  stock. Three cases escape it: infinity taken from a stock of infinity leaves
  not-a-number, which is not 0 or below and stays; a \<^verbatim>\<open>float\<close> and an \<^verbatim>\<open>int\<close> too large
  for a \<^verbatim>\<open>float\<close> raise \<^verbatim>\<open>OverflowError\<close>; and the key \<^verbatim>\<open>''\<close>, which \<^verbatim>\<open>load_data\<close> can
  store, is refused with \<^verbatim>\<open>TypeError\<close>. What holds, for a name that is not empty,
  present with stock \<^verbatim>\<open>s\<close>, and \<^verbatim>\<open>0 < qty <= s\<close>: when \<^verbatim>\<open>s - qty\<close> can be computed the call
  returns; if \<^verbatim>\<open>s - qty\<close> is 0 or below the item is no longer a key and \<^verbatim>\<open>get_qty(item)\<close>
  returns 0, otherwise \<^verbatim>\<open>get_qty(item)\<close> returns \<^verbatim>\<open>s - qty\<close>, the exact difference for two
  integers; when \<^verbatim>\<open>qty\<close> equals a stock that is not infinity the entry is deleted. When
  \<^verbatim>\<open>s - qty\<close> cannot be computed the call raises \<^verbatim>\<open>OverflowError\<close> and changes nothing.
\<close>

theorem remove_item_decrements:
  assumes "name \<noteq> []" and "map_of stock_data name = Some s"
    and "num_lt (PInt 0) q" and "num_le q s"
  shows "(case py_sub s q of
            None \<Rightarrow>
              remove_item (PStr name) (PNum q) stock_data = (Inl OverflowError, stock_data)
          | Some left \<Rightarrow>
              fst (remove_item (PStr name) (PNum q) stock_data) = Inr () \<and>
              (if num_le left (PInt 0)
               then name \<notin> set (dict_keys (snd (remove_item (PStr name) (PNum q) stock_data))) \<and>
                    fst (get_qty (PStr name) (snd (remove_item (PStr name) (PNum q) stock_data)))
                      = Inr (PInt 0)
               else fst (get_qty (PStr name) (snd (remove_item (PStr name) (PNum q) stock_data)))
                      = Inr left)) \<and>
         (\<forall>i j. int_of s = Some i \<and> int_of q = Some j \<longrightarrow>
            py_sub s q = Some (PInt (i - j))) \<and>
         (num_le s q \<and> s \<noteq> PFloat PosInf \<and> is_double s \<and> is_double q \<longrightarrow>
            fst (remove_item (PStr name) (PNum q) stock_data) = Inr () \<and>
            name \<notin> set (dict_keys (snd (remove_item (PStr name) (PNum q) stock_data))) \<and>
            fst (get_qty (PStr name) (snd (remove_item (PStr name) (PNum q) stock_data)))
              = Inr (PInt 0))"
proof -
  from assms(3) have g1: "\<not> num_le q (PInt 0)" by (rule num_lt_not_le)
  from assms(4) have g2: "\<not> num_lt s q" by (rule num_le_not_lt)
  have run: "remove_item (PStr name) (PNum q) stock_data =
      (case py_sub s q of
         None \<Rightarrow> (Inl OverflowError, stock_data)
       | Some left \<Rightarrow>
           if num_le left (PInt 0) then (Inr (), dict_del stock_data name)
           else (Inr (), dict_set stock_data name left))"
    using assms(1,2) g1 g2
    by (simp add: remove_item_def Let_def dict_del_set split: option.splits)
  have gone: "name \<notin> set (dict_keys (dict_del stock_data name))"
    by (simp add: keys_dict_del)
  have first: "case py_sub s q of
      None \<Rightarrow> remove_item (PStr name) (PNum q) stock_data = (Inl OverflowError, stock_data)
    | Some left \<Rightarrow>
        fst (remove_item (PStr name) (PNum q) stock_data) = Inr () \<and>
        (if num_le left (PInt 0)
         then name \<notin> set (dict_keys (snd (remove_item (PStr name) (PNum q) stock_data))) \<and>
              fst (get_qty (PStr name) (snd (remove_item (PStr name) (PNum q) stock_data)))
                = Inr (PInt 0)
         else fst (get_qty (PStr name) (snd (remove_item (PStr name) (PNum q) stock_data)))
                = Inr left)"
    using assms(1) gone
    by (simp add: run get_qty_def map_of_dict_set map_of_dict_del split: option.splits)
  have whole: "fst (remove_item (PStr name) (PNum q) stock_data) = Inr () \<and>
      name \<notin> set (dict_keys (snd (remove_item (PStr name) (PNum q) stock_data))) \<and>
      fst (get_qty (PStr name) (snd (remove_item (PStr name) (PNum q) stock_data))) = Inr (PInt 0)"
    if h: "num_le s q" "s \<noteq> PFloat PosInf" "is_double s" "is_double q"
  proof -
    from assms(4) h(1,2) assms(3) obtain k where "exact s = Finite k" "exact q = Finite k"
      using num_equal_finite by blast
    with h(3,4) obtain left where "py_sub s q = Some left" "num_le left (PInt 0)"
      using py_sub_equal by blast
    with assms(1) gone show ?thesis
      by (simp add: run get_qty_def map_of_dict_del)
  qed
  from first whole show ?thesis by (simp add: py_sub_int)
qed

theorem remove_item_decrements_witness:
  "map_of [(''apple'', PInt 10), (''banana'', PInt 2)] ''apple'' = Some (PInt 10) \<and>
   num_lt (PInt 0) (PInt 3) \<and> num_le (PInt 3) (PInt 10) \<and>
   py_sub (PInt 10) (PInt 3) = Some (PInt 7) \<and>
   remove_item (PStr ''apple'') (PNum (PInt 3)) [(''apple'', PInt 10), (''banana'', PInt 2)]
     = (Inr (), [(''apple'', PInt 7), (''banana'', PInt 2)]) \<and>
   fst (get_qty (PStr ''apple'')
          (snd (remove_item (PStr ''apple'') (PNum (PInt 3)) [(''apple'', PInt 10), (''banana'', PInt 2)])))
     = Inr (PInt 7) \<and>
   map_of [(''apple'', PInt 10), (''banana'', PInt 2)] ''banana'' = Some (PInt 2) \<and>
   num_lt (PInt 0) (PFloat (Finite (2 * fl_one))) \<and>
   num_le (PFloat (Finite (2 * fl_one))) (PInt 2) \<and>
   num_le (PInt 2) (PFloat (Finite (2 * fl_one))) \<and>
   is_double (PFloat (Finite (2 * fl_one))) \<and>
   remove_item (PStr ''banana'') (PNum (PFloat (Finite (2 * fl_one))))
       [(''apple'', PInt 10), (''banana'', PInt 2)]
     = (Inr (), [(''apple'', PInt 10)]) \<and>
   fst (get_qty (PStr ''banana'')
          (snd (remove_item (PStr ''banana'') (PNum (PFloat (Finite (2 * fl_one))))
                  [(''apple'', PInt 10), (''banana'', PInt 2)])))
     = Inr (PInt 0)"
  using fl_one_pos
    remove_item_decrements [of "''apple''" "[(''apple'', PInt 10), (''banana'', PInt 2)]"
      "PInt 10" "PInt 3"]
    remove_item_decrements [of "''banana''" "[(''apple'', PInt 10), (''banana'', PInt 2)]"
      "PInt 2" "PFloat (Finite (2 * fl_one))"]
  by (simp add: remove_item_def get_qty_def dict_del_def num_lt_eval num_le_eval py_sub_def
      fl_sub_def fl_round_int fl_round_zero)

text \<open>
  Infinity taken from a stock of infinity leaves not-a-number in the inventory; and the
  key \<^verbatim>\<open>''\<close>, loaded from a file, is present and cannot be removed from.
\<close>

theorem remove_item_decrements_counterexample:
  "map_of [(''apple'', PFloat PosInf)] ''apple'' = Some (PFloat PosInf) \<and>
   num_lt (PInt 0) (PFloat PosInf) \<and> num_le (PFloat PosInf) (PFloat PosInf) \<and>
   remove_item (PStr ''apple'') (PNum (PFloat PosInf)) [(''apple'', PFloat PosInf)]
     = (Inr (), [(''apple'', PFloat NaN)]) \<and>
   fst (get_qty (PStr ''apple'')
          (snd (remove_item (PStr ''apple'') (PNum (PFloat PosInf)) [(''apple'', PFloat PosInf)])))
     = Inr (PFloat NaN) \<and>
   load_data (\<lambda>k. ''key'')
     \<lparr>content = (\<lambda>p. Some (Json (PDict [(PStr [], PNum (PInt 5))]))), writable = (\<lambda>p. True)\<rparr>
     ''inventory.json'' []
     = [([], PInt 5)] \<and>
   map_of [([], PInt 5)] [] = Some (PInt 5) \<and>
   num_lt (PInt 0) (PInt 1) \<and> num_le (PInt 1) (PInt 5) \<and>
   remove_item (PStr []) (PNum (PInt 1)) [([], PInt 5)] = (Inl TypeError, [([], PInt 5)])"
  by (simp add: remove_item_def get_qty_def load_data_def num_lt_eval num_le_eval py_sub_def
      fl_sub_def)

subsection \<open>C5: the failures of remove_item\<close>

text \<open>
  C5 says that \<^verbatim>\<open>remove_item\<close> raises \<^verbatim>\<open>KeyError\<close> for every absent item,
  \<^verbatim>\<open>ValueError\<close> whenever \<^verbatim>\<open>qty\<close> is more than the stock of a present item, and leaves
  the inventory as it was in both cases. The arguments are checked before the item is
  looked up, so an absent item with a \<^verbatim>\<open>qty\<close> of 0 or below raises \<^verbatim>\<open>ValueError\<close>. What
  holds, for a name that is not empty and a number \<^verbatim>\<open>qty\<close>: a \<^verbatim>\<open>qty\<close> of 0 or below
  raises \<^verbatim>\<open>ValueError\<close>, whether the item is present or absent; an absent item raises
  \<^verbatim>\<open>KeyError\<close> when \<^verbatim>\<open>qty\<close> is not 0 or below; a \<^verbatim>\<open>qty\<close> above the stock of a present
  item raises \<^verbatim>\<open>ValueError\<close>; and whatever the arguments, a call that raises leaves the
  inventory as it was.
\<close>

theorem remove_item_failures:
  assumes "name \<noteq> []"
  shows "(num_le q (PInt 0) \<longrightarrow>
            remove_item (PStr name) (PNum q) stock_data = (Inl ValueError, stock_data)) \<and>
         (\<not> num_le q (PInt 0) \<and> map_of stock_data name = None \<longrightarrow>
            remove_item (PStr name) (PNum q) stock_data = (Inl KeyError, stock_data)) \<and>
         (\<forall>s. map_of stock_data name = Some s \<and> num_lt s q \<longrightarrow>
            remove_item (PStr name) (PNum q) stock_data = (Inl ValueError, stock_data)) \<and>
         (\<forall>item qty e. fst (remove_item item qty stock_data) = Inl e \<longrightarrow>
            snd (remove_item item qty stock_data) = stock_data)"
  using assms
  by (auto simp: remove_item_def Let_def split: option.splits if_splits)

theorem remove_item_failures_witness:
  "num_le (PInt 0) (PInt 0) \<and>
   remove_item (PStr ''ghost'') (PNum (PInt 0)) [(''apple'', PInt 2)]
     = (Inl ValueError, [(''apple'', PInt 2)]) \<and>
   remove_item (PStr ''apple'') (PNum (PInt 0)) [(''apple'', PInt 2)]
     = (Inl ValueError, [(''apple'', PInt 2)]) \<and>
   \<not> num_le (PInt 1) (PInt 0) \<and> map_of [(''apple'', PInt 2)] ''ghost'' = None \<and>
   remove_item (PStr ''ghost'') (PNum (PInt 1)) [(''apple'', PInt 2)]
     = (Inl KeyError, [(''apple'', PInt 2)]) \<and>
   map_of [(''apple'', PInt 2)] ''apple'' = Some (PInt 2) \<and> num_lt (PInt 2) (PInt 3) \<and>
   remove_item (PStr ''apple'') (PNum (PInt 3)) [(''apple'', PInt 2)]
     = (Inl ValueError, [(''apple'', PInt 2)]) \<and>
   fst (remove_item PNone (PNum (PInt 1)) [(''apple'', PInt 2)]) = Inl TypeError \<and>
   snd (remove_item PNone (PNum (PInt 1)) [(''apple'', PInt 2)]) = [(''apple'', PInt 2)]"
  using remove_item_failures [of "''ghost''" "PInt 0" "[(''apple'', PInt 2)]"]
    remove_item_failures [of "''apple''" "PInt 0" "[(''apple'', PInt 2)]"]
    remove_item_failures [of "''ghost''" "PInt 1" "[(''apple'', PInt 2)]"]
    remove_item_failures [of "''apple''" "PInt 3" "[(''apple'', PInt 2)]"]
  by (simp add: remove_item_def num_lt_eval num_le_eval)

text \<open>Removing 0 of an item that is absent raises \<^verbatim>\<open>ValueError\<close>, not \<^verbatim>\<open>KeyError\<close>.\<close>

theorem remove_item_failures_counterexample:
  "map_of ([] :: inventory) ''ghost'' = None \<and>
   fst (remove_item (PStr ''ghost'') (PNum (PInt 0)) []) = Inl ValueError \<and>
   fst (remove_item (PStr ''ghost'') (PNum (PInt 0)) []) \<noteq> Inl KeyError"
  by (simp add: remove_item_def num_le_eval)

subsection \<open>C6: loads that fail\<close>

text \<open>
  C6: \<^verbatim>\<open>load_data\<close> leaves the inventory as it was when the file does not exist, when
  its text is not JSON, and when the JSON value is not an object; the inventory is
  cleared only once an object has been parsed, and what the load then leaves does not
  depend on what the inventory was.
\<close>

theorem load_data_failures:
  "(content fs file = None \<longrightarrow> load_data py_str fs file stock_data = stock_data) \<and>
   (content fs file = Some Not_json \<longrightarrow> load_data py_str fs file stock_data = stock_data) \<and>
   (\<forall>data. content fs file = Some (Json data) \<and> (\<forall>items. data \<noteq> PDict items) \<longrightarrow>
      load_data py_str fs file stock_data = stock_data) \<and>
   (\<forall>items. content fs file = Some (Json (PDict items)) \<longrightarrow>
      load_data py_str fs file stock_data = load_items py_str items [])"
  by (auto simp: load_data_def split: pyval.splits)

theorem load_data_failures_witness:
  "load_data (\<lambda>k. ''key'') \<lparr>content = (\<lambda>p. None), writable = (\<lambda>p. True)\<rparr>
     ''inventory.json'' [(''apple'', PInt 7)] = [(''apple'', PInt 7)] \<and>
   load_data (\<lambda>k. ''key'') \<lparr>content = (\<lambda>p. Some Not_json), writable = (\<lambda>p. True)\<rparr>
     ''inventory.json'' [(''apple'', PInt 7)] = [(''apple'', PInt 7)] \<and>
   load_data (\<lambda>k. ''key'')
     \<lparr>content = (\<lambda>p. Some (Json (PList [PNum (PInt 1)]))), writable = (\<lambda>p. True)\<rparr>
     ''inventory.json'' [(''apple'', PInt 7)] = [(''apple'', PInt 7)] \<and>
   load_data (\<lambda>k. ''key'')
     \<lparr>content = (\<lambda>p. Some (Json (PDict [(PStr ''pear'', PNum (PInt 4))]))), writable = (\<lambda>p. True)\<rparr>
     ''inventory.json'' [(''apple'', PInt 7)] = [(''pear'', PInt 4)]"
  using load_data_failures [of "\<lparr>content = (\<lambda>p. None), writable = (\<lambda>p. True)\<rparr>"
      "''inventory.json''" "\<lambda>k. ''key''" "[(''apple'', PInt 7)]"]
    load_data_failures [of "\<lparr>content = (\<lambda>p. Some Not_json), writable = (\<lambda>p. True)\<rparr>"
      "''inventory.json''" "\<lambda>k. ''key''" "[(''apple'', PInt 7)]"]
    load_data_failures [of
      "\<lparr>content = (\<lambda>p. Some (Json (PList [PNum (PInt 1)]))), writable = (\<lambda>p. True)\<rparr>"
      "''inventory.json''" "\<lambda>k. ''key''" "[(''apple'', PInt 7)]"]
    load_data_failures [of
      "\<lparr>content = (\<lambda>p. Some (Json (PDict [(PStr ''pear'', PNum (PInt 4))]))), writable = (\<lambda>p. True)\<rparr>"
      "''inventory.json''" "\<lambda>k. ''key''" "[(''apple'', PInt 7)]"]
  by simp

subsection \<open>C7: what a load keeps\<close>

text \<open>
  C7: when the file holds a JSON object, \<^verbatim>\<open>load_data\<close> skips the items whose value is
  not a number and stores every item whose value is one, under its key as text, and an
  item that is skipped does not keep the others out. The keys of the inventory are the
  keys of the numeric items; each key has the value of its last numeric item; and when
  the numeric items have keys that differ as text, as the string keys of a JSON object
  do, the inventory is the list of the numeric items, in the order of the document.
  Numeric is what \<^verbatim>\<open>isinstance(v, (int, float))\<close> accepts, a JSON boolean included.
\<close>

theorem load_data_numeric_entries:
  assumes "content fs file = Some (Json (PDict items))"
  shows "set (dict_keys (load_data py_str fs file stock_data))
           = set (dict_keys (numeric_entries py_str items)) \<and>
         map_of (load_data py_str fs file stock_data) = map_of (rev (numeric_entries py_str items)) \<and>
         (dict_ok (numeric_entries py_str items) \<longrightarrow>
            load_data py_str fs file stock_data = numeric_entries py_str items)"
proof -
  have l: "load_data py_str fs file stock_data = dict_of_items (numeric_entries py_str items) []"
    using assms by (simp add: load_data_def load_items_numeric)
  show ?thesis
    by (simp add: l keys_dict_of_items map_of_dict_of_items dict_of_items_distinct dict_ok_def keys_Nil)
qed

theorem load_data_numeric_entries_witness:
  "numeric_entries (\<lambda>k. ''5'')
     [(PStr ''apple'', PNum (PInt 7)), (PStr ''note'', PStr ''none''),
      (PNum (PInt 5), PNum (PBool True)), (PStr ''pear'', PNone)]
     = [(''apple'', PInt 7), (''5'', PBool True)] \<and>
   dict_ok [(''apple'', PInt 7), (''5'', PBool True)] \<and>
   load_data (\<lambda>k. ''5'')
     \<lparr>content = (\<lambda>p. Some (Json (PDict
         [(PStr ''apple'', PNum (PInt 7)), (PStr ''note'', PStr ''none''),
          (PNum (PInt 5), PNum (PBool True)), (PStr ''pear'', PNone)]))),
      writable = (\<lambda>p. True)\<rparr>
     ''inventory.json'' [(''stale'', PInt 1)]
     = [(''apple'', PInt 7), (''5'', PBool True)]"
  using load_data_numeric_entries [of
      "\<lparr>content = (\<lambda>p. Some (Json (PDict
         [(PStr ''apple'', PNum (PInt 7)), (PStr ''note'', PStr ''none''),
          (PNum (PInt 5), PNum (PBool True)), (PStr ''pear'', PNone)]))),
        writable = (\<lambda>p. True)\<rparr>"
      "''inventory.json''"
      "[(PStr ''apple'', PNum (PInt 7)), (PStr ''note'', PStr ''none''),
        (PNum (PInt 5), PNum (PBool True)), (PStr ''pear'', PNone)]"
      "\<lambda>k. ''5''" "[(''stale'', PInt 1)]"]
  by (simp add: dict_ok_def dict_keys_def)

subsection \<open>C8: items low in stock\<close>

text \<open>
  C8: for a number \<^verbatim>\<open>threshold\<close>, \<^verbatim>\<open>check_low_items(threshold)\<close> returns the keys of the
  inventory whose quantity is below \<^verbatim>\<open>threshold\<close>, each once, in the order of the
  inventory, and leaves the inventory as it is; for a \<^verbatim>\<open>threshold\<close> that is not a number
  it raises \<^verbatim>\<open>TypeError\<close>.
\<close>

theorem check_low_items_result:
  assumes "dict_ok stock_data"
  shows "check_low_items (PNum t) stock_data =
           (Inr (filter (\<lambda>name. case map_of stock_data name of
                                   None \<Rightarrow> False | Some qty \<Rightarrow> num_lt qty t)
                   (dict_keys stock_data)), stock_data) \<and>
         (as_number threshold = None \<longrightarrow>
            fst (check_low_items threshold stock_data) = Inl TypeError)"
  using assms
  by (simp add: check_low_items_def dict_ok_def dict_keys_def low_items_lookup)

theorem check_low_items_result_witness:
  "dict_ok [(''apple'', PInt 10), (''banana'', PInt 2)] \<and>
   check_low_items (PNum (PInt 5)) [(''apple'', PInt 10), (''banana'', PInt 2)]
     = (Inr [''banana''], [(''apple'', PInt 10), (''banana'', PInt 2)]) \<and>
   as_number (PStr ''five'') = None \<and>
   fst (check_low_items (PStr ''five'') [(''apple'', PInt 10), (''banana'', PInt 2)]) = Inl TypeError"
  using check_low_items_result [of "[(''apple'', PInt 10), (''banana'', PInt 2)]" "PInt 5"
      "PStr ''five''"]
  by (simp add: dict_ok_def dict_keys_def num_lt_eval)

subsection \<open>C9: adding nothing of a new item\<close>

text \<open>
  C9: for a name that is not empty and is absent from the inventory, \<^verbatim>\<open>add_item(item, 0)\<close>
  returns and appends an entry of quantity 0 for the item: the item is then a key, and
  \<^verbatim>\<open>check_low_items(t)\<close> lists it for every number \<^verbatim>\<open>t\<close> above zero.
\<close>

theorem add_item_zero_creates_entry:
  assumes "name \<noteq> []" and "map_of stock_data name = None"
  shows "add_item limit (PStr name) (PNum (PInt 0)) stock_data = (Inr (), stock_data @ [(name, PInt 0)]) \<and>
         name \<in> set (dict_keys (snd (add_item limit (PStr name) (PNum (PInt 0)) stock_data))) \<and>
         map_of (snd (add_item limit (PStr name) (PNum (PInt 0)) stock_data)) name = Some (PInt 0) \<and>
         (\<forall>t. num_lt (PInt 0) t \<longrightarrow>
            (\<exists>names. fst (check_low_items (PNum t) (snd (add_item limit (PStr name) (PNum (PInt 0)) stock_data)))
                        = Inr names \<and> name \<in> set names))"
proof -
  from assms(2) have "name \<notin> set (dict_keys stock_data)" by (simp add: map_of_eq_None_keys)
  then have "dict_set stock_data name (PInt 0) = stock_data @ [(name, PInt 0)]"
    by (rule dict_set_new)
  with assms have run: "add_item limit (PStr name) (PNum (PInt 0)) stock_data
      = (Inr (), stock_data @ [(name, PInt 0)])"
    by (simp add: add_item_def py_add_def entry_fails_zero num_lt_eval)
  show ?thesis
    by (simp add: run dict_keys_def check_low_items_def assms(2) map_add_def)
qed

theorem add_item_zero_creates_entry_witness:
  "map_of [(''apple'', PInt 10)] ''banana'' = None \<and>
   add_item 4300 (PStr ''banana'') (PNum (PInt 0)) [(''apple'', PInt 10)]
     = (Inr (), [(''apple'', PInt 10), (''banana'', PInt 0)]) \<and>
   fst (check_low_items (PNum (PInt 1))
          (snd (add_item 4300 (PStr ''banana'') (PNum (PInt 0)) [(''apple'', PInt 10)])))
     = Inr [''banana'']"
  using add_item_zero_creates_entry [of "''banana''" "[(''apple'', PInt 10)]" 4300]
  by (simp add: check_low_items_def num_lt_eval)

subsection \<open>C10: the queries change nothing\<close>

text \<open>
  C10: \<^verbatim>\<open>get_qty\<close> and \<^verbatim>\<open>check_low_items\<close> leave the inventory as it was, whatever
  their argument, also when they raise.
\<close>

theorem queries_keep_inventory:
  "snd (get_qty item stock_data) = stock_data \<and>
   snd (check_low_items threshold stock_data) = stock_data"
  by (simp add: get_qty_def check_low_items_def split: option.splits)

theorem queries_keep_inventory_witness:
  "get_qty PNone [(''apple'', PInt 7)] = (Inl TypeError, [(''apple'', PInt 7)]) \<and>
   get_qty (PStr ''apple'') [(''apple'', PInt 7)] = (Inr (PInt 7), [(''apple'', PInt 7)]) \<and>
   check_low_items PNone [(''apple'', PInt 7)] = (Inl TypeError, [(''apple'', PInt 7)]) \<and>
   check_low_items (PNum (PInt 8)) [(''apple'', PInt 7)] = (Inr [''apple''], [(''apple'', PInt 7)])"
  using queries_keep_inventory [of PNone "[(''apple'', PInt 7)]" PNone]
    queries_keep_inventory [of "PStr ''apple''" "[(''apple'', PInt 7)]" "PNum (PInt 8)"]
  by (simp add: get_qty_def check_low_items_def num_lt_eval)

end
